theory Spec2Isabelle
  imports Complex_Main "HOL-Library.Word"
begin

unbundle bit_operations_syntax

section \<open>Console output\<close>

text \<open>
  Each of the three programs writes to \<^verbatim>\<open>std::cout\<close> and has no other effect on the
  outside world. The stream is modelled by the characters written to it so far; a member
  function that may print takes the stream and returns it extended. Flushing (the second
  effect of \<^verbatim>\<open>std::endl\<close>) is not observable in this model.
\<close>

type_synonym ostream = string

definition endl :: string where
  "endl = [CHR 0x0A]"

text \<open>
  \<^verbatim>\<open>operator<<(int)\<close> with the stream's default flags: decimal digits, a minus sign for
  negative values, no padding.
\<close>

definition digit :: "nat \<Rightarrow> char" where
  "digit d = ''0123456789'' ! d"

fun show_nat :: "nat \<Rightarrow> string" where
  "show_nat n = (if n < 10 then [digit n] else show_nat (n div 10) @ [digit (n mod 10)])"

declare show_nat.simps [simp del]

definition show_int :: "int \<Rightarrow> string" where
  "show_int i = (if i < 0 then CHR ''-'' # show_nat (nat (- i)) else show_nat (nat i))"


section \<open>Double-precision arithmetic\<close>

text \<open>
  \<^verbatim>\<open>double\<close> is IEEE 754 binary64. A value is a NaN, an infinity with its sign, or a finite
  number \<open>Finite s m e\<close> that stands for \<open>(-1)\<^sup>s \<times> m \<times> 2\<^sup>e\<close>; the arithmetic below
  produces finite values with \<open>m < 2\<^sup>5\<^sup>3\<close> and \<open>-1074 \<le> e \<le> 971\<close>, and with
  \<open>2\<^sup>5\<^sup>2 \<le> m\<close> unless \<open>e = -1074\<close> (zero and the subnormal numbers). A NaN \<open>NaN s p\<close>
  has its sign bit \<open>s\<close> and the 52 bits \<open>p\<close> of its fraction field (not all zero), the
  highest of which tells a quiet NaN from a signalling one.
\<close>

datatype double = NaN bool "52 word" | Infinity bool | Finite bool nat int

fun isnan :: "double \<Rightarrow> bool" where
  "isnan (NaN s p) = True"
| "isnan (Infinity s) = False"
| "isnan (Finite s m e) = False"

text \<open>The number of digits of \<open>n\<close> in base \<open>b\<close> (none for zero).\<close>

fun num_digits :: "nat \<Rightarrow> nat \<Rightarrow> nat" where
  "num_digits b n = (if n = 0 \<or> b < 2 then 0 else Suc (num_digits b (n div b)))"

declare num_digits.simps [simp del]

text \<open>The fraction \<open>n / d\<close> multiplied by \<open>b\<^sup>k\<close>, as a fraction again.\<close>

definition scale :: "nat \<Rightarrow> nat \<Rightarrow> nat \<Rightarrow> int \<Rightarrow> nat \<times> nat" where
  "scale b n d k = (if 0 \<le> k then (n * b ^ nat k, d) else (n, d * b ^ nat (- k)))"

text \<open>For positive \<open>n\<close> and \<open>d\<close>, the integer \<open>l\<close> with \<open>b\<^sup>l \<le> n / d < b\<^sup>l\<^sup>+\<^sup>1\<close>.\<close>

definition floor_log :: "nat \<Rightarrow> nat \<Rightarrow> nat \<Rightarrow> int" where
  "floor_log b n d =
     (let l = int (num_digits b n) - int (num_digits b d);
          (n', d') = scale b n d (- l)
      in if d' \<le> n' then l else l - 1)"

text \<open>The integer nearest to \<open>n / d\<close>; of two equally near, the even one.\<close>

definition round_nearest_even :: "nat \<Rightarrow> nat \<Rightarrow> nat" where
  "round_nearest_even n d =
     (let q = n div d; r = n mod d
      in if 2 * r < d then q
         else if d < 2 * r then q + 1
         else if even q then q else q + 1)"

text \<open>
  Rounding in the default mode (to nearest, ties to even): the double nearest to the
  exact value \<open>(-1)\<^sup>s \<times> n / d\<close>. The exponent of the last place is that of a 53-bit
  significand, but not below \<open>-1074\<close>; a significand rounded up to \<open>2\<^sup>5\<^sup>3\<close> moves to the
  next exponent; a result beyond the largest finite double is an infinity.
\<close>

definition round_double :: "bool \<Rightarrow> nat \<Rightarrow> nat \<Rightarrow> double" where
  "round_double s n d =
     (if n = 0 then Finite s 0 (- 1074)
      else
        let e = max (floor_log 2 n d - 52) (- 1074);
            (n', d') = scale 2 n d (- e);
            m = round_nearest_even n' d';
            (m, e) = (if m = 2 ^ 53 then (2 ^ 52, e + 1) else (m, e))
        in if 971 < e then Infinity s else Finite s m e)"

text \<open>A floating literal of the source with the exact value \<open>n / d\<close>, such as \<^verbatim>\<open>5.0\<close>.\<close>

definition double_literal :: "nat \<Rightarrow> nat \<Rightarrow> double" where
  "double_literal n d = round_double False n d"

text \<open>
  \<^verbatim>\<open>operator*\<close> on doubles: the exact product, rounded once to binary64; its sign is the
  exclusive or of the operands' signs. IEEE 754 leaves the NaN that an operation returns to
  the implementation; the rules here are those of the x86-64 multiplication
  (\<^verbatim>\<open>mulsd\<close>): a NaN operand is returned with its sign and payload, made quiet, the
  first operand before the second; zero times infinity gives the default NaN, which has the
  sign bit set.
\<close>

definition quiet :: "52 word \<Rightarrow> 52 word" where
  "quiet p = p OR 0x8000000000000"

definition default_nan :: double where
  "default_nan = NaN True 0x8000000000000"

fun dmul :: "double \<Rightarrow> double \<Rightarrow> double" where
  "dmul (NaN s p) y = NaN s (quiet p)"
| "dmul x (NaN t q) = NaN t (quiet q)"
| "dmul (Infinity s) (Infinity t) = Infinity (s \<noteq> t)"
| "dmul (Infinity s) (Finite t n f) = (if n = 0 then default_nan else Infinity (s \<noteq> t))"
| "dmul (Finite s m e) (Infinity t) = (if m = 0 then default_nan else Infinity (s \<noteq> t))"
| "dmul (Finite s m e) (Finite t n f) =
     (let (p, q) = scale 2 (m * n) 1 (e + f) in round_double (s \<noteq> t) p q)"

text \<open>The real number a finite double stands for.\<close>

fun valof :: "double \<Rightarrow> real option" where
  "valof (NaN s p) = None"
| "valof (Infinity s) = None"
| "valof (Finite s m e) =
     Some ((if s then - 1 else 1)
             * (if 0 \<le> e then real m * 2 ^ nat e else real m / 2 ^ nat (- e)))"

text \<open>
  \<^verbatim>\<open>operator==\<close> on doubles: a NaN is equal to nothing, itself included; other doubles
  are equal when they are the same infinity or stand for the same number (so the two zeros
  are equal).
\<close>

fun double_eq :: "double \<Rightarrow> double \<Rightarrow> bool" where
  "double_eq (NaN s p) y = False"
| "double_eq x (NaN t q) = False"
| "double_eq (Infinity s) (Infinity t) = (s = t)"
| "double_eq (Infinity s) (Finite t n f) = False"
| "double_eq (Finite s m e) (Infinity t) = False"
| "double_eq (Finite s m e) (Finite t n f) = (valof (Finite s m e) = valof (Finite t n f))"

text \<open>
  \<^verbatim>\<open>operator<<(double)\<close> with the stream's default flags formats as \<^verbatim>\<open>printf\<close> does
  with \<^verbatim>\<open>%g\<close> and precision 6: the value is rounded to six significant decimal digits;
  with \<open>x\<close> the decimal exponent of the rounded value, the notation is scientific when
  \<open>x < -4\<close> or \<open>6 \<le> x\<close> and fixed otherwise; trailing zeros of the fraction, and a decimal
  point with nothing after it, are dropped. The decimal conversion is exact (the digits are
  those of the double's value, rounded to nearest, ties to even). A NaN is shown as \<open>nan\<close>,
  or \<open>-nan\<close> when its sign bit is set.
\<close>

definition strip_zeros :: "string \<Rightarrow> string" where
  "strip_zeros ds = rev (dropWhile (\<lambda>c. c = CHR ''0'') (rev ds))"

definition point_frac :: "string \<Rightarrow> string" where
  "point_frac ds = (let frac = strip_zeros ds in if frac = [] then [] else CHR ''.'' # frac)"

definition show_exponent :: "int \<Rightarrow> string" where
  "show_exponent x =
     CHR ''e'' # (if x < 0 then CHR ''-'' else CHR ''+'')
       # (let ds = show_nat (nat \<bar>x\<bar>) in if length ds < 2 then CHR ''0'' # ds else ds)"

definition show_general :: "nat \<Rightarrow> nat \<Rightarrow> string" where
  "show_general n d =
     (let x0 = floor_log 10 n d;
          (n', d') = scale 10 n d (5 - x0);
          r = round_nearest_even n' d';
          (r, x) = (if r = 10 ^ 6 then (10 ^ 5, x0 + 1) else (r, x0));
          ds = show_nat r
      in if x < - 4 \<or> 6 \<le> x then hd ds # point_frac (tl ds) @ show_exponent x
         else if 0 \<le> x then take (nat x + 1) ds @ point_frac (drop (nat x + 1) ds)
         else ''0.'' @ replicate (nat (- x) - 1) CHR ''0'' @ strip_zeros ds)"

fun show_double :: "double \<Rightarrow> string" where
  "show_double (NaN s p) = (if s then ''-nan'' else ''nan'')"
| "show_double (Infinity s) = (if s then ''-inf'' else ''inf'')"
| "show_double (Finite s m e) =
     (if s then ''-'' else []) @
     (if m = 0 then ''0'' else (let (n, d) = scale 2 m 1 e in show_general n d))"


section \<open>car.cpp\<close>

text \<open>
  \<^verbatim>\<open>class Car { std::string make; std::string model; int year; ... }\<close>

  The class is a datatype with one constructor and the three fields as selectors (a
  \<^theory_text>\<open>record\<close> cannot have a field called \<open>make\<close>). The datatype constructor is the C++
  constructor, whose initializer list copies its three arguments into the fields and whose
  body is empty. \<^verbatim>\<open>int\<close> is a 32-bit two's complement integer, read with \<open>sint\<close>.
\<close>

datatype Car = Car (make: string) (model: string) (year: "32 word")

text \<open>
  \<^verbatim>\<open>void displayInfo() const\<close>: the receiver is returned next to the stream, so that what
  the call does to the object is part of the model.
\<close>

definition displayInfo :: "Car \<Rightarrow> ostream \<Rightarrow> Car \<times> ostream" where
  "displayInfo self out =
     (self, out @ ''Make: '' @ make self @ '', Model: '' @ model self
                @ '', Year: '' @ show_int (sint (year self)) @ endl)"

text \<open>\<^verbatim>\<open>main\<close> of car.cpp: the exit status and what was printed.\<close>

definition car_main :: "ostream \<Rightarrow> int \<times> ostream" where
  "car_main out =
     (let myCar = Car ''Toyota'' ''Corolla'' 2020;
          (myCar, out) = displayInfo myCar out
      in (0, out))"


section \<open>cell.cpp\<close>

text \<open>
  \<^verbatim>\<open>class Cell { std::string dna; std::vector<std::string> proteins; ... }\<close>
\<close>

record Cell =
  dna :: string
  proteins :: "string list"

text \<open>
  The constructor initialises \<open>dna\<close> from its argument; \<open>proteins\<close> is default-constructed
  (empty) and then assigned in the constructor's body.
\<close>

definition Cell_ctor :: "string \<Rightarrow> Cell" where
  "Cell_ctor d =
     (let self = \<lparr>dna = d, proteins = []\<rparr>
      in self\<lparr>proteins := [''Hemoglobin'', ''Insulin'']\<rparr>)"

text \<open>
  The member functions of \<open>Cell\<close> are not \<^verbatim>\<open>const\<close>: each takes the receiver and the
  stream and returns both after the call (after the returned value, if there is one).
\<close>

definition mitosis :: "Cell \<Rightarrow> ostream \<Rightarrow> Cell \<times> ostream" where
  "mitosis self out = (self, out @ ''Doing cell division'')"

definition apoptosis :: "Cell \<Rightarrow> ostream \<Rightarrow> Cell \<times> ostream" where
  "apoptosis self out = (self, out)"

definition replicate_dna :: "Cell \<Rightarrow> ostream \<Rightarrow> string \<times> Cell \<times> ostream" where
  "replicate_dna self out = (dna self @ dna self, self, out)"

definition cell_main :: "ostream \<Rightarrow> int \<times> ostream" where
  "cell_main out =
     (let cell = Cell_ctor ''ATCG'';
          (cell, out) = mitosis cell out
      in (0, out))"


section \<open>shape.cpp\<close>

text \<open>
  Modelled from the spec: the macro \<^verbatim>\<open>M_PI\<close> comes from \<^verbatim>\<open><cmath>\<close> and is not part of
  the source. It is the constant \<open>\<pi>\<close> as a floating literal, which the C library's
  header writes \<^verbatim>\<open>3.14159265358979323846\<close>.
\<close>

definition M_PI :: double where
  "M_PI = double_literal 314159265358979323846 (10 ^ 20)"

text \<open>
  \<^verbatim>\<open>class Circle : public Shape { double radius; ... }\<close> and
  \<^verbatim>\<open>class Rectangle : public Shape { double width; double height; ... }\<close>: the datatype
  constructors are the C++ constructors, which only initialise the fields.
\<close>

datatype Circle = Circle (radius: double)

datatype Rectangle = Rectangle (width: double) (height: double)

text \<open>
  \<^verbatim>\<open>Circle::area\<close> and \<^verbatim>\<open>Rectangle::area\<close>, the two overriders of the pure virtual
  \<^verbatim>\<open>Shape::area\<close>. \<^verbatim>\<open>M_PI * radius * radius\<close> associates to the left.
\<close>

definition Circle_area :: "Circle \<Rightarrow> double" where
  "Circle_area self = dmul (dmul M_PI (radius self)) (radius self)"

definition Rectangle_area :: "Rectangle \<Rightarrow> double" where
  "Rectangle_area self = dmul (width self) (height self)"

text \<open>
  A \<^verbatim>\<open>const Shape&\<close> refers to an object of one of the two derived classes (\<open>Shape\<close>
  itself is abstract); the constructor of the sum records the object's dynamic type, and
  the virtual call \<^verbatim>\<open>shape.area()\<close> selects the overrider by it.
\<close>

datatype Shape = Shape_Circle Circle | Shape_Rectangle Rectangle

fun area :: "Shape \<Rightarrow> double" where
  "area (Shape_Circle c) = Circle_area c"
| "area (Shape_Rectangle r) = Rectangle_area r"

definition printArea :: "Shape \<Rightarrow> ostream \<Rightarrow> ostream" where
  "printArea shape out = out @ ''Area: '' @ show_double (area shape) @ endl"

definition shape_main :: "ostream \<Rightarrow> int \<times> ostream" where
  "shape_main out =
     (let circle = Circle (double_literal 5 1);
          rectangle = Rectangle (double_literal 10 1) (double_literal 2 1);
          out = printArea (Shape_Circle circle) out;
          out = printArea (Shape_Rectangle rectangle) out
      in (0, out))"


section \<open>The constant \<open>\<pi>\<close>\<close>

text \<open>
  To compare an area with the real number \<open>25 \<times> \<pi>\<close>, \<open>\<pi>\<close> is enclosed between rational
  numbers by Machin's formula and partial sums of the series of the arctangent.
\<close>

definition arctan_sum :: "real \<Rightarrow> nat \<Rightarrow> real" where
  "arctan_sum x n = (\<Sum>i<n. (- 1) ^ i * (1 / real (i * 2 + 1) * x ^ (i * 2 + 1)))"


section \<open>Properties of the arithmetic\<close>

text \<open>
  The rounding is what IEEE 754 asks for: \<open>round_nearest_even\<close> is within one half of the
  exact quotient, \<open>floor_log\<close> is the integer part of the logarithm, and \<open>round_double\<close>
  returns a double in normal or subnormal form within half a unit in its last place of the
  exact value, or an infinity when the value is beyond the finite doubles.
\<close>

lemma round_nearest_even_near:
  assumes "0 < d"
  shows "\<bar>real (round_nearest_even n d) - real n / real d\<bar> \<le> 1 / 2"
proof -
  define q r where "q = n div d" and "r = n mod d"
  have "n = q * d + r"
    by (simp add: q_def r_def)
  then have "real n = real q * real d + real r"
    by (metis of_nat_add of_nat_mult)
  with assms have split: "real n / real d = real q + real r / real d"
    by (simp add: field_simps)
  have r: "r < d"
    using assms by (simp add: r_def)
  consider "2 * r < d" | "d < 2 * r" | "2 * r = d"
    by linarith
  then show ?thesis
  proof cases
    case 1
    then have "round_nearest_even n d = q"
      by (simp add: round_nearest_even_def q_def r_def Let_def)
    moreover from 1 have "2 * real r < real d"
      by linarith
    then have "real r / real d \<le> 1 / 2"
      using assms by (simp add: field_simps)
    ultimately show ?thesis
      using split by simp
  next
    case 2
    then have "round_nearest_even n d = q + 1"
      by (simp add: round_nearest_even_def q_def r_def Let_def)
    moreover from 2 r have "real d < 2 * real r" and "real r < real d"
      by linarith+
    then have "1 / 2 \<le> real r / real d" and "real r / real d \<le> 1"
      using assms by (simp_all add: field_simps)
    ultimately show ?thesis
      using split by simp
  next
    case 3
    then have "round_nearest_even n d = q \<or> round_nearest_even n d = q + 1"
      by (simp add: round_nearest_even_def q_def r_def Let_def)
    moreover from 3 have "2 * real r = real d"
      by linarith
    then have "real r / real d = 1 / 2"
      using assms by (simp add: field_simps)
    ultimately show ?thesis
      using split by auto
  qed
qed

lemma num_digits_bounds:
  "2 \<le> b \<Longrightarrow> 0 < n \<Longrightarrow> b ^ (num_digits b n - 1) \<le> n \<and> n < b ^ num_digits b n"
proof (induction b n rule: num_digits.induct)
  case (1 b n)
  have nd: "num_digits b n = Suc (num_digits b (n div b))"
    using "1.prems" by (simp add: num_digits.simps [of b n])
  have decomp: "n = b * (n div b) + n mod b" and rem: "n mod b < b"
    using "1.prems" by simp_all
  show ?case
  proof (cases "n div b = 0")
    case True
    then have "num_digits b (n div b) = 0"
      by (simp add: num_digits.simps [of b 0])
    moreover from True decomp rem have "n < b"
      by simp
    ultimately show ?thesis
      using "1.prems" nd by simp
  next
    case False
    with "1.prems" "1.IH" have IH: "b ^ (num_digits b (n div b) - 1) \<le> n div b"
      "n div b < b ^ num_digits b (n div b)"
      by auto
    from False "1.prems" obtain k where k: "num_digits b (n div b) = Suc k"
      by (simp add: num_digits.simps [of b "n div b"])
    have "b ^ Suc k = b * b ^ k"
      by simp
    also have "\<dots> \<le> b * (n div b)"
      using IH(1) k by simp
    also have "\<dots> \<le> n"
      using decomp by linarith
    finally have lower: "b ^ Suc k \<le> n" .
    from IH(2) k have "n div b + 1 \<le> b ^ Suc k"
      by simp
    then have "b * (n div b + 1) \<le> b * b ^ Suc k"
      by (rule mult_le_mono2)
    moreover have "b * (n div b + 1) = b * (n div b) + b"
      by simp
    with decomp rem have "n < b * (n div b + 1)"
      by linarith
    ultimately have "n < b * b ^ Suc k"
      by linarith
    with lower nd k show ?thesis
      by simp
  qed
qed

lemma scale_value:
  assumes "0 < b" and "0 < d" and "scale b n d k = (n', d')"
  shows "0 < d'" and "real n' / real d' = real n / real d * real b powi k"
proof -
  show "0 < d'"
    using assms by (auto simp: scale_def split: if_splits)
  show "real n' / real d' = real n / real d * real b powi k"
  proof (cases "0 \<le> k")
    case True
    with assms have "n' = n * b ^ nat k" and "d' = d"
      by (simp_all add: scale_def)
    with True show ?thesis
      by (simp add: power_int_def)
  next
    case False
    with assms have "n' = n" and "d' = d * b ^ nat (- k)"
      by (simp_all add: scale_def)
    with False show ?thesis
      by (simp add: power_int_def field_simps)
  qed
qed

lemma num_digits_real:
  assumes "2 \<le> b" and "0 < n"
  shows "real b powi (int (num_digits b n) - 1) \<le> real n"
    and "real n < real b powi int (num_digits b n)"
proof -
  from num_digits_bounds [OF assms]
  have lo: "b ^ (num_digits b n - 1) \<le> n" and hi: "n < b ^ num_digits b n"
    by simp_all
  from hi assms have pos: "0 < num_digits b n"
    by (cases "num_digits b n") simp_all
  then have "int (num_digits b n) - 1 = int (num_digits b n - 1)"
    by simp
  moreover from lo have "real (b ^ (num_digits b n - 1)) \<le> real n"
    by (rule of_nat_mono)
  ultimately show "real b powi (int (num_digits b n) - 1) \<le> real n"
    by (simp only: power_int_of_nat of_nat_power)
  from hi have "real n < real (b ^ num_digits b n)"
    by (simp only: of_nat_less_iff)
  then show "real n < real b powi int (num_digits b n)"
    by (simp only: power_int_of_nat of_nat_power)
qed


lemma floor_log_bounds:
  assumes b: "2 \<le> b" and n: "0 < n" and d: "0 < d"
  shows "real b powi floor_log b n d \<le> real n / real d"
    and "real n / real d < real b powi (floor_log b n d + 1)"
proof -
  define B where "B = real b"
  define a c where "a = int (num_digits b n)" and "c = int (num_digits b d)"
  define l where "l = a - c"
  obtain n' d' where sc: "scale b n d (- l) = (n', d')"
    by (cases "scale b n d (- l)")
  have B: "0 < B" "B \<noteq> 0"
    using b by (simp_all add: B_def)
  have D: "0 < real d" and N: "0 < real n"
    using n d by simp_all
  note nb = num_digits_real [OF b n, folded B_def a_def]
  note db = num_digits_real [OF b d, folded B_def c_def]
  have pw: "0 < B powi k" for k
    using B by simp
  have "real n * B powi (c - 1) \<le> real n * real d"
    using db(1) N by simp
  also have "\<dots> < B powi a * real d"
    using nb(2) D by simp
  finally have "real n / real d < B powi a / B powi (c - 1)"
    using D pw [of "c - 1"] by (simp add: field_simps)
  also have "\<dots> = B powi (a - (c - 1))"
    by (rule power_int_diff [symmetric]) (simp add: B)
  also have "a - (c - 1) = l + 1"
    by (simp add: l_def)
  finally have upper: "real n / real d < B powi (l + 1)" .
  have "B powi (a - 1) * real d < B powi (a - 1) * B powi c"
    using db(2) pw [of "a - 1"] by simp
  also have "\<dots> \<le> real n * B powi c"
    using nb(1) pw [of c] by simp
  finally have "B powi (a - 1) / B powi c < real n / real d"
    using D pw [of c] by (simp add: field_simps)
  moreover have "B powi (a - 1) / B powi c = B powi (a - 1 - c)"
    by (rule power_int_diff [symmetric]) (simp add: B)
  moreover have "a - 1 - c = l - 1"
    by (simp add: l_def)
  ultimately have lower: "B powi (l - 1) < real n / real d"
    by simp
  from scale_value [OF _ d sc] b
  have d': "0 < d'" and ratio: "real n' / real d' = real n / real d * B powi (- l)"
    by (simp_all add: B_def)
  have cmp: "d' \<le> n' \<longleftrightarrow> B powi l \<le> real n / real d"
  proof -
    have "d' \<le> n' \<longleftrightarrow> 1 \<le> real n' / real d'"
      using d' by simp
    also have "\<dots> \<longleftrightarrow> 1 \<le> real n / real d * B powi (- l)"
      by (simp only: ratio)
    also have "\<dots> \<longleftrightarrow> B powi l \<le> real n / real d"
      using pw [of l] D by (simp add: power_int_minus field_simps)
    finally show ?thesis .
  qed
  have fl: "floor_log b n d = (if d' \<le> n' then l else l - 1)"
    using sc by (simp add: floor_log_def l_def a_def c_def Let_def)
  show "real b powi floor_log b n d \<le> real n / real d"
    using fl cmp lower by (auto simp: B_def)
  show "real n / real d < real b powi (floor_log b n d + 1)"
    using fl cmp upper by (auto simp: B_def)
qed

lemma valof_Finite: "valof (Finite s m e) = Some ((if s then - 1 else 1) * (real m * 2 powi e))"
  by (simp add: power_int_def field_simps)

lemma round_double_cases:
  assumes "0 < n" and "0 < d"
  obtains (finite) m e where "round_double s n d = Finite s m e"
      and "m < 2 ^ 53" and "- 1074 \<le> e" and "e \<le> 971"
      and "2 ^ 52 \<le> m \<or> e = - 1074"
      and "\<bar>real m * 2 powi e - real n / real d\<bar> \<le> 2 powi e / 2"
    | (overflow) "round_double s n d = Infinity s"
      and "(2 ^ 53 - 1 / 2) * 2 powi 971 \<le> real n / real d"
proof -
  define L where "L = floor_log 2 n d"
  define e0 where "e0 = max (L - 52) (- 1074)"
  obtain n' d' where sc: "scale 2 n d (- e0) = (n', d')"
    by (cases "scale 2 n d (- e0)")
  define m0 where "m0 = round_nearest_even n' d'"
  define r where "r = real n / real d"
  define r' where "r' = real n' / real d'"
  have p2: "0 < (2::real) powi k" for k
    by simp
  from scale_value [OF _ assms(2) sc]
  have d': "0 < d'" and r': "r' = r * 2 powi (- e0)"
    by (simp_all add: r_def r'_def)
  then have r: "r = r' * 2 powi e0"
    by (simp add: power_int_minus field_simps)
  from round_nearest_even_near [OF d', of n']
  have near: "\<bar>real m0 - r'\<bar> \<le> 1 / 2"
    by (simp add: m0_def r'_def)
  from floor_log_bounds [of 2 n d] assms
  have lo: "2 powi L \<le> r" and hi: "r < 2 powi (L + 1)"
    by (simp_all add: L_def r_def)
  have "r' < 2 powi (L + 1) * 2 powi (- e0)"
    using hi p2 [of "- e0"] by (simp add: r')
  also have "\<dots> = 2 powi (L + 1 - e0)"
    by (simp add: power_int_add [symmetric])
  also have "\<dots> \<le> 2 powi 53"
    by (rule power_int_increasing) (simp_all add: e0_def)
  finally have r'_hi: "r' < 2 ^ 53"
    by simp
  with near have "real m0 < 2 ^ 53 + 1"
    by linarith
  then have "real m0 < real (2 ^ 53 + 1)"
    by simp
  then have m0_hi: "m0 \<le> 2 ^ 53"
    by (simp only: of_nat_less_iff; simp)
  have r'_lo: "2 ^ 52 \<le> r'" if "e0 = L - 52"
  proof -
    have "2 powi L * 2 powi (- e0) \<le> r'"
      using lo p2 [of "- e0"] by (simp add: r')
    moreover have "(2::real) powi L * 2 powi (- e0) = 2 powi (L - e0)"
      by (simp add: power_int_add [symmetric])
    moreover have "L - e0 = 52"
      using that by simp
    ultimately show ?thesis
      by simp
  qed
  have normal: "2 ^ 52 \<le> m0" if "e0 = L - 52"
  proof -
    from r'_lo [OF that] near have "(2::real) ^ 52 - 1 < real m0"
      by linarith
    then have "real (2 ^ 52 - 1) < real m0"
      by simp
    then show ?thesis
      by (simp only: of_nat_less_iff; simp)
  qed
  have e0_lo: "- 1074 \<le> e0"
    by (simp add: e0_def)
  have rd: "round_double s n d =
      (if m0 = 2 ^ 53
       then if 971 < e0 + 1 then Infinity s else Finite s (2 ^ 52) (e0 + 1)
       else if 971 < e0 then Infinity s else Finite s m0 e0)"
    using assms(1) sc
    by (simp add: round_double_def Let_def L_def [symmetric] e0_def [symmetric] m0_def)
  have err: "\<bar>real m0 * 2 powi e0 - r\<bar> \<le> 2 powi e0 / 2"
  proof -
    have "real m0 * 2 powi e0 - r = (real m0 - r') * 2 powi e0"
      by (simp add: r algebra_simps)
    then have "\<bar>real m0 * 2 powi e0 - r\<bar> = \<bar>real m0 - r'\<bar> * 2 powi e0"
      by (simp add: abs_mult)
    also have "\<dots> \<le> 1 / 2 * 2 powi e0"
      using near p2 [of e0] by (intro mult_right_mono) simp_all
    finally show ?thesis
      by simp
  qed
  have big: "(2 ^ 53 - 1 / 2) * 2 powi 971 \<le> r" if "m0 = 2 ^ 53" and "970 < e0"
  proof -
    from that have "real m0 = 2 ^ 53"
      by simp
    with near have "2 ^ 53 - 1 / 2 \<le> r'"
      by linarith
    then have "(2 ^ 53 - 1 / 2) * 2 powi 971 \<le> r' * 2 powi 971"
      by (intro mult_right_mono) simp_all
    also have "(2::real) powi 971 \<le> 2 powi e0"
      using that by (intro power_int_increasing) simp_all
    then have "r' * 2 powi 971 \<le> r' * 2 powi e0"
      using \<open>2 ^ 53 - 1 / 2 \<le> r'\<close> by (intro mult_left_mono) simp_all
    finally show ?thesis
      by (simp add: r)
  qed
  have big': "(2 ^ 53 - 1 / 2) * 2 powi 971 \<le> r" if "m0 < 2 ^ 53" and "971 < e0"
  proof -
    from that e0_lo have "e0 = L - 52"
      by (simp add: e0_def max_def split: if_splits)
    from r'_lo [OF this] have "2 ^ 52 \<le> r'" .
    moreover have "(2::real) powi 972 \<le> 2 powi e0"
      using that by (intro power_int_increasing) simp_all
    ultimately have "2 ^ 52 * 2 powi 972 \<le> r' * 2 powi e0"
      by (intro mult_mono) simp_all
    moreover have "(2 ^ 53 - 1 / 2) * 2 powi 971 \<le> 2 ^ 52 * (2::real) powi 972"
      by (simp add: power_int_def)
    ultimately show ?thesis
      by (simp add: r)
  qed
  show thesis
  proof (cases "m0 = 2 ^ 53")
    case True
    show thesis
    proof (cases "971 < e0 + 1")
      case True
      with \<open>m0 = 2 ^ 53\<close> rd have "round_double s n d = Infinity s"
        by simp
      moreover from True \<open>m0 = 2 ^ 53\<close> have "(2 ^ 53 - 1 / 2) * 2 powi 971 \<le> r"
        by (intro big) simp_all
      ultimately show thesis
        by (intro overflow) (simp_all add: r_def)
    next
      case False
      with True rd have res: "round_double s n d = Finite s (2 ^ 52) (e0 + 1)"
        by simp
      have "real (2 ^ 52) * 2 powi (e0 + 1) = real m0 * 2 powi e0"
        by (simp add: True power_int_add)
      with err have "\<bar>real (2 ^ 52) * 2 powi (e0 + 1) - r\<bar> \<le> 2 powi e0 / 2"
        by simp
      also have "\<dots> \<le> 2 powi (e0 + 1) / 2"
        by (simp add: power_int_add)
      finally show thesis
        using res False e0_lo by (intro finite [of "2 ^ 52" "e0 + 1"]) (simp_all add: r_def)
    qed
  next
    case False
    with m0_hi have lt: "m0 < 2 ^ 53"
      by simp
    show thesis
    proof (cases "971 < e0")
      case True
      with False rd have "round_double s n d = Infinity s"
        by simp
      moreover from True lt have "(2 ^ 53 - 1 / 2) * 2 powi 971 \<le> r"
        by (rule big' [rotated])
      ultimately show thesis
        by (intro overflow) (simp_all add: r_def)
    next
      case e: False
      with False rd have res: "round_double s n d = Finite s m0 e0"
        by simp
      have "2 ^ 52 \<le> m0 \<or> e0 = - 1074"
        using normal by (auto simp: e0_def max_def split: if_splits)
      with res lt e e0_lo err show thesis
        by (intro finite [of m0 e0]) (simp_all add: r_def)
    qed
  qed
qed

text \<open>
  The product of two finite non-zero doubles, when finite, is within half a unit in its
  last place of the exact product.
\<close>

lemma dmul_Finite_near:
  assumes "0 < m" and "0 < n"
    and res: "dmul (Finite s m e) (Finite t n f) = Finite u k g"
  shows "u = (s \<noteq> t)"
    and "k < 2 ^ 53 \<and> - 1074 \<le> g \<and> g \<le> 971 \<and> (k < 2 ^ 52 \<longrightarrow> g = - 1074)"
    and "\<bar>real k * 2 powi g - (real m * 2 powi e) * (real n * 2 powi f)\<bar> \<le> 2 powi g / 2"
proof -
  obtain p q where sc: "scale 2 (m * n) 1 (e + f) = (p, q)"
    by (cases "scale 2 (m * n) 1 (e + f)")
  from scale_value [OF _ _ sc]
  have q: "0 < q" and ratio: "real p / real q = real (m * n) * 2 powi (e + f)"
    by simp_all
  from assms sc have p: "0 < p"
    by (auto simp: scale_def split: if_splits)
  from res sc have rd: "round_double (s \<noteq> t) p q = Finite u k g"
    by simp
  have prod: "real p / real q = (real m * 2 powi e) * (real n * 2 powi f)"
    by (simp add: ratio power_int_add)
  from p q show "u = (s \<noteq> t)"
    and "k < 2 ^ 53 \<and> - 1074 \<le> g \<and> g \<le> 971 \<and> (k < 2 ^ 52 \<longrightarrow> g = - 1074)"
    and "\<bar>real k * 2 powi g - (real m * 2 powi e) * (real n * 2 powi f)\<bar> \<le> 2 powi g / 2"
    using rd prod by (cases rule: round_double_cases [of p q "s \<noteq> t"]; force)+
qed


section \<open>Properties of cell.cpp\<close>

text \<open>
  C4. A cell constructed with the identifier "ATCG" returns "ATCGATCG" from
  \<open>replicate_dna\<close>, whatever has been printed before.
\<close>

theorem replicate_dna_ATCG:
  "fst (replicate_dna (Cell_ctor ''ATCG'') out) = ''ATCGATCG''"
  by (simp add: replicate_dna_def Cell_ctor_def)


text \<open>
  C7. \<open>apoptosis\<close> has no observable effect: the cell, with its \<open>dna\<close> and \<open>proteins\<close>, and
  the console are returned as they were.
\<close>

theorem apoptosis_no_effect:
  "dna (fst (apoptosis c out)) = dna c
   \<and> proteins (fst (apoptosis c out)) = proteins c
   \<and> snd (apoptosis c out) = out"
  by (simp add: apoptosis_def)

text \<open>
  C9. Whatever string the constructor is given, the new cell's protein list is
  ["Hemoglobin", "Insulin"], and \<open>replicate_dna\<close> returns the string twice over and leaves
  the cell's \<open>dna\<close> and \<open>proteins\<close> as the constructor set them.
\<close>

theorem Cell_ctor_replicate_dna:
  "proteins (Cell_ctor s) = [''Hemoglobin'', ''Insulin'']
   \<and> fst (replicate_dna (Cell_ctor s) out) = s @ s
   \<and> dna (fst (snd (replicate_dna (Cell_ctor s) out))) = s
   \<and> proteins (fst (snd (replicate_dna (Cell_ctor s) out))) = [''Hemoglobin'', ''Insulin'']"
  by (simp add: replicate_dna_def Cell_ctor_def)


section \<open>Properties of car.cpp\<close>

text \<open>
  C5. \<open>displayInfo\<close> on the car ("Toyota", "Corolla", 2020) appends exactly the line
  "Make: Toyota, Model: Corolla, Year: 2020" and its line terminator to the console, and
  that line is all the program prints.
\<close>

theorem displayInfo_Toyota:
  "snd (displayInfo (Car ''Toyota'' ''Corolla'' 2020) out)
     = out @ ''Make: Toyota, Model: Corolla, Year: 2020'' @ endl
   \<and> car_main [] = (0, ''Make: Toyota, Model: Corolla, Year: 2020'' @ endl)"
  by (simp add: displayInfo_def car_main_def show_int_def show_nat.simps digit_def)

text \<open>
  C8. \<open>displayInfo\<close> is read-only: for every car, the fields \<open>make\<close>, \<open>model\<close> and \<open>year\<close>
  are the same after the call as before it.
\<close>

theorem displayInfo_read_only:
  "Car.make (fst (displayInfo c out)) = Car.make c
   \<and> model (fst (displayInfo c out)) = model c
   \<and> year (fst (displayInfo c out)) = year c"
  by (simp add: displayInfo_def)

section \<open>Properties of shape.cpp\<close>

text \<open>The literals of the program and the two products, evaluated.\<close>

lemmas double_eval =
  double_literal_def round_double_def floor_log_def scale_def round_nearest_even_def
  num_digits.simps Let_def

lemmas show_eval =
  floor_log_def scale_def round_nearest_even_def num_digits.simps Let_def
  show_general_def show_nat.simps digit_def point_frac_def strip_zeros_def

lemma double_literal_2: "double_literal 2 1 = Finite False 4503599627370496 (- 51)"
  by (simp add: double_eval)

lemma double_literal_5: "double_literal 5 1 = Finite False 5629499534213120 (- 50)"
  by (simp add: double_eval)

lemma double_literal_10: "double_literal 10 1 = Finite False 5629499534213120 (- 49)"
  by (simp add: double_eval)

lemma double_literal_20: "double_literal 20 1 = Finite False 5629499534213120 (- 48)"
  by (simp add: double_eval)

lemma M_PI_value: "M_PI = Finite False 7074237752028440 (- 51)"
  by (simp add: M_PI_def double_eval)

lemma dmul_10_2:
  "dmul (Finite False 5629499534213120 (- 49)) (Finite False 4503599627370496 (- 51))
     = Finite False 5629499534213120 (- 48)"
  by (simp add: double_eval)

lemma dmul_pi_5:
  "dmul (Finite False 7074237752028440 (- 51)) (Finite False 5629499534213120 (- 50))
     = Finite False 8842797190035550 (- 49)"
  by (simp add: double_eval)

lemma dmul_pi_5_5:
  "dmul (Finite False 8842797190035550 (- 49)) (Finite False 5629499534213120 (- 50))
     = Finite False 5526748243772219 (- 46)"
  by (simp add: double_eval)

lemma Circle_area_value:
  "Circle_area (Circle (double_literal 5 1)) = Finite False 5526748243772219 (- 46)"
  by (simp only: Circle_area_def Circle.sel M_PI_value double_literal_5 dmul_pi_5 dmul_pi_5_5)

lemma Rectangle_area_value:
  "Rectangle_area (Rectangle (double_literal 10 1) (double_literal 2 1))
     = Finite False 5629499534213120 (- 48)"
  by (simp only: Rectangle_area_def Rectangle.sel double_literal_10 double_literal_2 dmul_10_2)

lemma show_double_circle: "show_double (Finite False 5526748243772219 (- 46)) = ''78.5398''"
  by (simp add: show_eval)

lemma show_double_rectangle: "show_double (Finite False 5629499534213120 (- 48)) = ''20''"
  by (simp add: show_eval)

lemma sign_product_commute: "(s \<noteq> t) = (t \<noteq> (s::bool))"
  by auto

lemma dmul_Finite_commute:
  "dmul (Finite s m e) (Finite t n f) = dmul (Finite t n f) (Finite s m e)"
  by (simp only: dmul.simps mult.commute [of m n] add.commute [of e f]
        sign_product_commute [of s t])

lemma dmul_Infinity_commute: "dmul (Infinity s) (Infinity t) = dmul (Infinity t) (Infinity s)"
  by (simp only: dmul.simps sign_product_commute [of s t])

lemma dmul_Infinity_Finite:
  "dmul (Infinity s) (Finite t n f) = dmul (Finite t n f) (Infinity s)"
  by (simp only: dmul.simps sign_product_commute [of s t])

lemma dmul_commute: "\<not> isnan (dmul x y) \<Longrightarrow> dmul x y = dmul y x"
proof (cases x)
  case (NaN s p)
  moreover assume "\<not> isnan (dmul x y)"
  ultimately show ?thesis by simp
next
  case x: (Infinity s)
  assume nn: "\<not> isnan (dmul x y)"
  show ?thesis
  proof (cases y)
    case (NaN t q)
    with x nn show ?thesis by simp
  next
    case (Infinity t)
    show ?thesis unfolding x Infinity by (rule dmul_Infinity_commute)
  next
    case (Finite t n f)
    show ?thesis unfolding x Finite by (rule dmul_Infinity_Finite)
  qed
next
  case x: (Finite s m e)
  assume nn: "\<not> isnan (dmul x y)"
  show ?thesis
  proof (cases y)
    case (NaN t q)
    with x nn show ?thesis by simp
  next
    case (Infinity t)
    show ?thesis unfolding x Infinity by (rule dmul_Infinity_Finite [symmetric])
  next
    case (Finite t n f)
    show ?thesis unfolding x Finite by (rule dmul_Finite_commute)
  qed
qed

lemma double_eq_refl: "\<not> isnan x \<Longrightarrow> double_eq x x"
  by (cases x) simp_all

text \<open>Whether the product is a NaN does not depend on the order of the operands.\<close>

lemma isnan_dmul_commute: "isnan (dmul x y) = isnan (dmul y x)"
  by (metis dmul_commute)

text \<open>
  Zero times infinity is the default NaN in both orders, and the two results are not equal
  for \<^verbatim>\<open>operator==\<close>.
\<close>

lemma dmul_zero_Infinity:
  "dmul (Finite False 0 (- 1074)) (Infinity False) = default_nan"
  "dmul (Infinity False) (Finite False 0 (- 1074)) = default_nan"
  "\<not> double_eq (dmul (Finite False 0 (- 1074)) (Infinity False))
                 (dmul (Infinity False) (Finite False 0 (- 1074)))"
  by (simp_all add: default_nan_def)

text \<open>
  The partial sums of the alternating series enclose the arctangent: an even number of
  terms is a lower bound, an odd number an upper bound.
\<close>

lemma arctan_sum_bounds:
  assumes "0 < x" and "x \<le> 1"
  shows "arctan_sum x (2 * n) \<le> arctan x" and "arctan x \<le> arctan_sum x (2 * n + 1)"
proof -
  let ?a = "\<lambda>n. 1 / real (n * 2 + 1) * x ^ (n * 2 + 1)"
  from assms have ax: "\<bar>x\<bar> \<le> 1" by simp
  from assms have "0 < ?a 0" by simp
  with summable_Leibniz(2) [OF zeroseq_arctan_series [OF ax] monoseq_arctan_series [OF ax]]
  have "(\<Sum>i. (- 1) ^ i * ?a i)
          \<in> {\<Sum>i<2 * n. (- 1) ^ i * ?a i .. \<Sum>i<2 * n + 1. (- 1) ^ i * ?a i}"
    by blast
  then show "arctan_sum x (2 * n) \<le> arctan x" and "arctan x \<le> arctan_sum x (2 * n + 1)"
    by (simp_all add: arctan_series [OF ax] arctan_sum_def)
qed

lemma arctan_sum_0: "arctan_sum x 0 = 0"
  by (simp add: arctan_sum_def)

lemma arctan_sum_Suc:
  "arctan_sum x (Suc n) = arctan_sum x n + (- 1) ^ n * (1 / real (n * 2 + 1) * x ^ (n * 2 + 1))"
  by (simp add: arctan_sum_def)

lemma arctan_sum_numeral:
  "arctan_sum x (numeral k) =
     arctan_sum x (pred_numeral k)
       + (- 1) ^ pred_numeral k
           * (1 / real (pred_numeral k * 2 + 1) * x ^ (pred_numeral k * 2 + 1))"
  by (simp add: numeral_eq_Suc arctan_sum_Suc)

lemmas arctan_sum_eval = arctan_sum_numeral arctan_sum_Suc arctan_sum_0 power_divide

lemma arctan_sum_5_lower: "1973955598498807582406 / 10 ^ 22 \<le> arctan_sum (1 / 5) 12"
  by (simp add: arctan_sum_eval)

lemma arctan_sum_5_upper: "arctan_sum (1 / 5) 13 \<le> 1973955598498807583749 / 10 ^ 22"
  by (simp add: arctan_sum_eval)

lemma arctan_sum_239_lower: "41840760020747238644 / 10 ^ 22 \<le> arctan_sum (1 / 239) 4"
  by (simp add: arctan_sum_eval)

lemma arctan_sum_239_upper: "arctan_sum (1 / 239) 5 \<le> 41840760020747238646 / 10 ^ 22"
  by (simp add: arctan_sum_eval)

lemma arctan_5_bounds:
  "1973955598498807582406 / 10 ^ 22 \<le> arctan (1 / 5)"
  "arctan (1 / 5) \<le> 1973955598498807583749 / 10 ^ 22"
  using arctan_sum_bounds [of "1 / 5" 6] arctan_sum_5_lower arctan_sum_5_upper by simp_all

lemma arctan_239_bounds:
  "41840760020747238644 / 10 ^ 22 \<le> arctan (1 / 239)"
  "arctan (1 / 239) \<le> 41840760020747238646 / 10 ^ 22"
  using arctan_sum_bounds [of "1 / 239" 2] arctan_sum_239_lower arctan_sum_239_upper
  by simp_all

lemma pi_bounds:
  "31415926535897932363912 / 10 ^ 22 \<le> pi"
  "pi \<le> 31415926535897932385408 / 10 ^ 22"
  using machin arctan_5_bounds arctan_239_bounds by simp_all

text \<open>
  The double that stands for \<^verbatim>\<open>M_PI\<close> is the one nearest to \<open>\<pi>\<close>: in its binade a unit in
  the last place is \<open>2\<^sup>-\<^sup>5\<^sup>1\<close>, and it is within half of that of \<open>\<pi>\<close>.
\<close>

lemma M_PI_nearest_pi: "\<exists>v. valof M_PI = Some v \<and> \<bar>v - pi\<bar> \<le> 1 / 2 ^ 52"
proof (intro exI [of _ "7074237752028440 / 2 ^ 51"] conjI)
  show "valof M_PI = Some (7074237752028440 / 2 ^ 51)"
    by (simp add: M_PI_value)
  show "\<bar>7074237752028440 / 2 ^ 51 - pi\<bar> \<le> 1 / 2 ^ 52"
    using pi_bounds by simp
qed

text \<open>
  C2. The area of the circle of radius 5.0 is the double \<^verbatim>\<open>M_PI * 5.0 * 5.0\<close>, each product
  rounded to double precision. It is the double nearest to \<open>25 \<times> \<pi>\<close> (within \<open>2\<^sup>-\<^sup>4\<^sup>7\<close>,
  half a unit in the last place), it lies within \<open>10\<^sup>-\<^sup>4\<close> of 78.5398, and the stream
  prints it as "78.5398".
\<close>

theorem Circle_area_5:
  "Circle_area (Circle (double_literal 5 1))
     = dmul (dmul M_PI (double_literal 5 1)) (double_literal 5 1)
   \<and> (\<exists>v. valof (Circle_area (Circle (double_literal 5 1))) = Some v
          \<and> \<bar>v - 25 * pi\<bar> \<le> 1 / 2 ^ 47
          \<and> \<bar>v - 785398 / 10 ^ 4\<bar> < 1 / 10 ^ 4)
   \<and> show_double (Circle_area (Circle (double_literal 5 1))) = ''78.5398''"
proof (intro conjI)
  show "Circle_area (Circle (double_literal 5 1))
          = dmul (dmul M_PI (double_literal 5 1)) (double_literal 5 1)"
    by (simp only: Circle_area_def Circle.sel)
  show "\<exists>v. valof (Circle_area (Circle (double_literal 5 1))) = Some v
          \<and> \<bar>v - 25 * pi\<bar> \<le> 1 / 2 ^ 47
          \<and> \<bar>v - 785398 / 10 ^ 4\<bar> < 1 / 10 ^ 4"
  proof (intro exI [of _ "5526748243772219 / 2 ^ 46"] conjI)
    show "valof (Circle_area (Circle (double_literal 5 1))) = Some (5526748243772219 / 2 ^ 46)"
      unfolding Circle_area_value by simp
    show "\<bar>5526748243772219 / 2 ^ 46 - 25 * pi\<bar> \<le> 1 / 2 ^ 47"
      using pi_bounds by simp
    show "\<bar>5526748243772219 / 2 ^ 46 - 785398 / 10 ^ 4 :: real\<bar> < 1 / 10 ^ 4"
      by simp
  qed
  show "show_double (Circle_area (Circle (double_literal 5 1))) = ''78.5398''"
    by (simp only: Circle_area_value show_double_circle)
qed

text \<open>
  C3. The rectangle of width 10.0 and height 2.0 has the area 20.0 exactly: the product
  is the double that the literal \<^verbatim>\<open>20.0\<close> denotes.
\<close>

theorem Rectangle_area_10_2:
  "Rectangle_area (Rectangle (double_literal 10 1) (double_literal 2 1)) = double_literal 20 1"
  by (simp only: Rectangle_area_value double_literal_20)

text \<open>
  C10, as stated, fails when the product is a NaN. For the two quiet NaNs with the bits
  \<open>fff8000000000002\<close> and \<open>7ff8000000000001\<close> as width and height, the area is the first
  operand in either order: the two areas are different doubles, they are not equal for
  \<^verbatim>\<open>operator==\<close>, and they print differently.
\<close>

theorem Rectangle_area_commute_counterexample:
  "Rectangle_area (Rectangle (NaN True 0x8000000000002) (NaN False 0x8000000000001))
     \<noteq> Rectangle_area (Rectangle (NaN False 0x8000000000001) (NaN True 0x8000000000002))
   \<and> \<not> double_eq
         (Rectangle_area (Rectangle (NaN True 0x8000000000002) (NaN False 0x8000000000001)))
         (Rectangle_area (Rectangle (NaN False 0x8000000000001) (NaN True 0x8000000000002)))
   \<and> show_double
         (Rectangle_area (Rectangle (NaN True 0x8000000000002) (NaN False 0x8000000000001)))
       = ''-nan''
   \<and> show_double
         (Rectangle_area (Rectangle (NaN False 0x8000000000001) (NaN True 0x8000000000002)))
       = ''nan''"
  by (simp add: Rectangle_area_def)

text \<open>
  C10, amended. For all doubles \<open>w\<close> and \<open>h\<close> whose product is not a NaN, the area does not
  depend on the order of the two dimensions: \<open>Rectangle(w, h).area()\<close> and
  \<open>Rectangle(h, w).area()\<close> return the same double, and the two are equal for
  \<^verbatim>\<open>operator==\<close>.
\<close>

theorem Rectangle_area_commute_not_nan:
  assumes "\<not> isnan (Rectangle_area (Rectangle w h))"
  shows "Rectangle_area (Rectangle w h) = Rectangle_area (Rectangle h w)
       \<and> double_eq (Rectangle_area (Rectangle w h)) (Rectangle_area (Rectangle h w))"
proof -
  from assms have nn: "\<not> isnan (dmul w h)"
    by (simp add: Rectangle_area_def)
  then have "dmul w h = dmul h w"
    by (rule dmul_commute)
  moreover from nn have "double_eq (dmul w h) (dmul w h)"
    by (rule double_eq_refl)
  ultimately show ?thesis
    by (simp add: Rectangle_area_def)
qed

theorem Rectangle_area_commute_not_nan_witness:
  "\<not> isnan (Rectangle_area (Rectangle (double_literal 10 1) (double_literal 2 1)))
   \<and> Rectangle_area (Rectangle (double_literal 10 1) (double_literal 2 1))
       = Rectangle_area (Rectangle (double_literal 2 1) (double_literal 10 1))
   \<and> double_eq (Rectangle_area (Rectangle (double_literal 10 1) (double_literal 2 1)))
         (Rectangle_area (Rectangle (double_literal 2 1) (double_literal 10 1)))"
proof -
  have nn: "\<not> isnan (Rectangle_area (Rectangle (double_literal 10 1) (double_literal 2 1)))"
    unfolding Rectangle_area_value by simp
  from nn Rectangle_area_commute_not_nan [OF nn] show ?thesis
    by (rule conjI)
qed

text \<open>
  C1. Through a reference to \<open>Shape\<close>, the area is computed by the formula of the object's
  own class: for the circle of radius 5.0 and the rectangle 10.0 by 2.0 of \<open>main\<close>,
  \<open>printArea\<close> prints what \<open>Circle::area\<close> and \<open>Rectangle::area\<close> return, and the program's
  output is the two lines "Area: 78.5398" and "Area: 20".
\<close>

theorem printArea_dispatch:
  "printArea (Shape_Circle (Circle (double_literal 5 1))) out
     = out @ ''Area: '' @ show_double (Circle_area (Circle (double_literal 5 1))) @ endl
   \<and> printArea (Shape_Rectangle (Rectangle (double_literal 10 1) (double_literal 2 1))) out
     = out @ ''Area: ''
         @ show_double (Rectangle_area (Rectangle (double_literal 10 1) (double_literal 2 1)))
         @ endl
   \<and> shape_main [] = (0, ''Area: 78.5398'' @ endl @ ''Area: 20'' @ endl)"
  unfolding printArea_def shape_main_def Let_def area.simps
    Circle_area_value Rectangle_area_value show_double_circle show_double_rectangle
  by simp

section \<open>The output of the three programs\<close>

text \<open>
  C6. \<open>mitosis\<close> on any cell appends exactly the text "Doing cell division" to the console
  (the source writes no line terminator after it). Each program writes a fixed text to the
  console and returns 0: cell.cpp that text, car.cpp the line
  "Make: Toyota, Model: Corolla, Year: 2020", and shape.cpp one line for each of its two
  calls of \<open>printArea\<close>, "Area: 78.5398" and "Area: 20".
\<close>

theorem mitosis_prints:
  "snd (mitosis c out) = out @ ''Doing cell division''
   \<and> cell_main [] = (0, ''Doing cell division'')
   \<and> car_main [] = (0, ''Make: Toyota, Model: Corolla, Year: 2020'' @ endl)
   \<and> shape_main [] = (0, ''Area: 78.5398'' @ endl @ ''Area: 20'' @ endl)"
proof (intro conjI)
  show "snd (mitosis c out) = out @ ''Doing cell division''"
    by (simp add: mitosis_def)
  show "cell_main [] = (0, ''Doing cell division'')"
    by (simp add: mitosis_def cell_main_def)
  show "car_main [] = (0, ''Make: Toyota, Model: Corolla, Year: 2020'' @ endl)"
    by (simp add: displayInfo_def car_main_def show_int_def show_nat.simps digit_def)
  show "shape_main [] = (0, ''Area: 78.5398'' @ endl @ ''Area: 20'' @ endl)"
    unfolding printArea_def shape_main_def Let_def area.simps
      Circle_area_value Rectangle_area_value show_double_circle show_double_rectangle
    by simp
qed

end
